theory Spec2Isabelle
  imports Complex_Main "HOL-Library.Multiset"
begin

section \<open>The value normalizer (\<open>normalizeFlattenedMap\<close>)\<close>

text \<open>
  The normalizer works on Go values of type \<open>interface{}\<close> and switches on their dynamic
  type. The three types it names are \<open>[]interface{}\<close>, \<open>map[string]interface{}\<close> and
  \<open>*schema.Set\<close>; every other dynamic type (strings, numbers, booleans, nil, typed slices,
  structs) reaches the \<open>default\<close> branch and is an opaque leaf \<open>Other\<close> here.

  A Go map has unique keys and no order; it is represented by the list of its entries.
  A \<open>*schema.Set\<close> is represented by the list that its method \<open>List()\<close> returns.
\<close>

datatype 'a obj =
    Other 'a
  | Slice "'a obj list"
  | StringMap "(string \<times> 'a obj) list"
  | SchemaSet "'a obj list"

text \<open>
  The source, case by case: a slice is rebuilt from its normalized elements, a map from its
  normalized values, a set is replaced by \<open>obj.(*schema.Set).List()\<close> as it is (the
  elements of that list are not visited), and anything else is returned unchanged.
\<close>

fun normalizeFlattenedMap :: "'a obj \<Rightarrow> 'a obj" where
  "normalizeFlattenedMap (Slice arr) = Slice (map normalizeFlattenedMap arr)"
| "normalizeFlattenedMap (StringMap mp) =
     StringMap (map (\<lambda>(key, value). (key, normalizeFlattenedMap value)) mp)"
| "normalizeFlattenedMap (SchemaSet s) = Slice s"
| "normalizeFlattenedMap (Other x) = Other x"

text \<open>A tree contains a set-like container when some node, at any depth, is a \<open>SchemaSet\<close>.\<close>

fun containsSet :: "'a obj \<Rightarrow> bool" where
  "containsSet (Other x) = False"
| "containsSet (Slice arr) = list_ex containsSet arr"
| "containsSet (StringMap mp) = list_ex (\<lambda>(key, value). containsSet value) mp"
| "containsSet (SchemaSet s) = True"

subsection \<open>What the normalizer guarantees\<close>

lemma normalizeFlattenedMap_setfree_id:
  "\<not> containsSet t \<Longrightarrow> normalizeFlattenedMap t = t"
proof (induction t rule: normalizeFlattenedMap.induct)
  case (1 arr)
  then have "map normalizeFlattenedMap arr = arr"
    by (intro map_idI) (simp add: list_ex_iff)
  then show ?case by simp
next
  case (2 mp)
  have "map (\<lambda>(key, value). (key, normalizeFlattenedMap value)) mp = mp"
  proof (rule map_idI)
    fix kv assume kv: "kv \<in> set mp"
    obtain k v where eq: "kv = (k, v)" by (cases kv)
    from 2(2) kv eq have "\<not> containsSet v" by (auto simp: list_ex_iff)
    with 2(1) kv eq have "normalizeFlattenedMap v = v" by auto
    with eq show "(case kv of (key, value) \<Rightarrow> (key, normalizeFlattenedMap value)) = kv"
      by simp
  qed
  then show ?case by simp
next
  case (3 s)
  then show ?case by simp
next
  case (4 x)
  then show ?case by simp
qed

text \<open>
  Claim C2: the tree returned by the normalizer contains no set-like container at any
  depth, also inside the sequences that were materialized from set-like containers.
  The code does not do this. A set whose elements hold a set (here the field \<open>rules\<close>
  of a map, a set of one map whose field \<open>ports\<close> is a set) is replaced by the list of
  its elements, which are left untouched, so the inner set is still in the result.
\<close>

theorem normalizeFlattenedMap_leaves_set_inside_set:
  "normalizeFlattenedMap
     (StringMap [(''rules'', SchemaSet [StringMap [(''ports'', SchemaSet [Other ''80''])]])])
     = StringMap [(''rules'', Slice [StringMap [(''ports'', SchemaSet [Other ''80''])]])]
   \<and> containsSet (normalizeFlattenedMap
       (StringMap [(''rules'', SchemaSet [StringMap [(''ports'', SchemaSet [Other ''80''])]])]))"
  by simp

text \<open>
  Claim C8: normalizing a tree without set-like containers returns an equal tree and,
  equivalently, the normalizer is idempotent on every tree. The first half holds
  (\<open>normalizeFlattenedMap_setfree_id\<close>); the second does not, for the reason of C2: the
  first pass leaves the inner set of a set in place and the second pass removes it.
\<close>

theorem normalizeFlattenedMap_not_idempotent:
  "normalizeFlattenedMap
     (StringMap [(''rules'', SchemaSet [StringMap [(''ports'', SchemaSet [Other ''80''])]])])
     = StringMap [(''rules'', Slice [StringMap [(''ports'', SchemaSet [Other ''80''])]])]
   \<and> normalizeFlattenedMap (normalizeFlattenedMap
       (StringMap [(''rules'', SchemaSet [StringMap [(''ports'', SchemaSet [Other ''80''])]])]))
     = StringMap [(''rules'', Slice [StringMap [(''ports'', Slice [Other ''80''])]])]
   \<and> normalizeFlattenedMap (normalizeFlattenedMap
       (StringMap [(''rules'', SchemaSet [StringMap [(''ports'', SchemaSet [Other ''80''])]])]))
     \<noteq> normalizeFlattenedMap
       (StringMap [(''rules'', SchemaSet [StringMap [(''ports'', SchemaSet [Other ''80''])]])])"
  by simp

section \<open>Typed values (the \<open>cty\<close> library, as far as the writer reads it)\<close>

text \<open>
  The writer receives values of the library type \<open>cty.Value\<close>. It asks a value whether it
  is null, for its type, for its elements in iteration order, for its length and for its
  string; it asks a type whether it is an object, a collection or a map type, for its
  element type and for its friendly name. The model below has exactly these.

  A value carries what its type needs: a null value its type, a collection its element
  type (an empty list still has one). Unknown and marked values are left out: the values
  the converters build come from decoding JSON, which yields neither.
\<close>

datatype cty_type =
    cty_String
  | cty_Number
  | cty_Bool
  | cty_DynamicPseudoType
  | cty_List cty_type
  | cty_Set cty_type
  | cty_Map cty_type
  | cty_Object "(string \<times> cty_type) list"
  | cty_Tuple "cty_type list"

text \<open>
  The element list of \<open>ListVal\<close>, \<open>SetVal\<close>, \<open>MapVal\<close> and \<open>ObjectVal\<close> is the sequence
  that the value's \<open>ElementIterator\<close> visits: index order for a list, the set's own order
  for a set, key order for a map and attribute-name order for an object.
\<close>

datatype cty_value =
    NullVal cty_type
  | StringVal string
  | NumberVal rat
  | BoolVal bool
  | ListVal cty_type "cty_value list"
  | SetVal cty_type "cty_value list"
  | MapVal cty_type "(string \<times> cty_value) list"
  | ObjectVal "(string \<times> cty_value) list"
  | TupleVal "cty_value list"

fun ctyType :: "cty_value \<Rightarrow> cty_type" where
  "ctyType (NullVal ty) = ty"
| "ctyType (StringVal s) = cty_String"
| "ctyType (NumberVal n) = cty_Number"
| "ctyType (BoolVal b) = cty_Bool"
| "ctyType (ListVal ety vals) = cty_List ety"
| "ctyType (SetVal ety vals) = cty_Set ety"
| "ctyType (MapVal ety vals) = cty_Map ety"
| "ctyType (ObjectVal attrs) = cty_Object (map (\<lambda>(name, v). (name, ctyType v)) attrs)"
| "ctyType (TupleVal vals) = cty_Tuple (map ctyType vals)"

fun IsNull :: "cty_value \<Rightarrow> bool" where
  "IsNull (NullVal ty) = True"
| "IsNull v = False"

fun IsObjectType :: "cty_type \<Rightarrow> bool" where
  "IsObjectType (cty_Object atys) = True"
| "IsObjectType ty = False"

fun IsMapType :: "cty_type \<Rightarrow> bool" where
  "IsMapType (cty_Map ety) = True"
| "IsMapType ty = False"

fun IsCollectionType :: "cty_type \<Rightarrow> bool" where
  "IsCollectionType (cty_List ety) = True"
| "IsCollectionType (cty_Set ety) = True"
| "IsCollectionType (cty_Map ety) = True"
| "IsCollectionType ty = False"

text \<open>
  \<open>ElementType\<close>, \<open>AsString\<close>, \<open>LengthInt\<close> and \<open>ElementIterator\<close> panic in the library
  outside their domain (the element type of a non-collection, the string of a non-string,
  the elements of a primitive or null value). The writer calls each of them behind a test
  that excludes those inputs (\<open>IsCollectionType\<close>, the friendly name \<open>string\<close> of a
  non-null value, \<open>IsNull\<close> and \<open>IsObjectType\<close>); the last equation of each function
  below is therefore never reached from the writer, see \<open>string_value\<close> and
  \<open>object_keys_are_strings\<close>.
\<close>

fun ElementType :: "cty_type \<Rightarrow> cty_type" where
  "ElementType (cty_List ety) = ety"
| "ElementType (cty_Set ety) = ety"
| "ElementType (cty_Map ety) = ety"
| "ElementType ty = ty"

fun FriendlyName :: "cty_type \<Rightarrow> string" where
  "FriendlyName cty_String = ''string''"
| "FriendlyName cty_Number = ''number''"
| "FriendlyName cty_Bool = ''bool''"
| "FriendlyName cty_DynamicPseudoType = ''dynamic''"
| "FriendlyName (cty_List ety) = ''list of '' @ FriendlyName ety"
| "FriendlyName (cty_Set ety) = ''set of '' @ FriendlyName ety"
| "FriendlyName (cty_Map ety) = ''map of '' @ FriendlyName ety"
| "FriendlyName (cty_Object atys) = ''object''"
| "FriendlyName (cty_Tuple etys) = ''tuple''"

fun AsString :: "cty_value \<Rightarrow> string" where
  "AsString (StringVal s) = s"
| "AsString v = []"

fun LengthInt :: "cty_value \<Rightarrow> nat" where
  "LengthInt (ListVal ety vals) = length vals"
| "LengthInt (SetVal ety vals) = length vals"
| "LengthInt (MapVal ety vals) = length vals"
| "LengthInt (ObjectVal attrs) = length attrs"
| "LengthInt (TupleVal vals) = length vals"
| "LengthInt v = 0"

text \<open>
  The iterator yields pairs of a key and an element, both values: the index for a list or
  tuple, the element itself for a set, the key or attribute name (a string value) for a
  map or an object.
\<close>

fun indexed :: "nat \<Rightarrow> cty_value list \<Rightarrow> (cty_value \<times> cty_value) list" where
  "indexed i [] = []"
| "indexed i (v # vals) = (NumberVal (of_nat i), v) # indexed (Suc i) vals"

fun ElementIterator :: "cty_value \<Rightarrow> (cty_value \<times> cty_value) list" where
  "ElementIterator (ListVal ety vals) = indexed 0 vals"
| "ElementIterator (TupleVal vals) = indexed 0 vals"
| "ElementIterator (SetVal ety vals) = map (\<lambda>v. (v, v)) vals"
| "ElementIterator (MapVal ety vals) = map (\<lambda>(key, v). (StringVal key, v)) vals"
| "ElementIterator (ObjectVal attrs) = map (\<lambda>(name, v). (StringVal name, v)) attrs"
| "ElementIterator v = []"

text \<open>
  The library builds only well-typed values: the elements of a collection have the
  collection's element type (its constructors panic otherwise), and the attribute names
  of an object and the keys of a map are distinct (both are Go maps).
\<close>

fun well_typed :: "cty_value \<Rightarrow> bool" where
  "well_typed (ListVal ety vals) = list_all (\<lambda>v. well_typed v \<and> ctyType v = ety) vals"
| "well_typed (SetVal ety vals) = list_all (\<lambda>v. well_typed v \<and> ctyType v = ety) vals"
| "well_typed (MapVal ety vals) =
     (distinct (map fst vals) \<and> list_all (\<lambda>(key, v). well_typed v \<and> ctyType v = ety) vals)"
| "well_typed (ObjectVal attrs) =
     (distinct (map fst attrs) \<and> list_all (\<lambda>(name, v). well_typed v) attrs)"
| "well_typed (TupleVal vals) = list_all well_typed vals"
| "well_typed v = True"

section \<open>The document under construction (\<open>hclwrite.Body\<close>)\<close>

text \<open>
  A body is the sequence of its items, attributes and blocks, in the order they were
  added. \<open>AppendNewBlock\<close> adds a block at the end. In the source the block is appended
  empty and its body is filled afterwards through the returned pointer, before anything
  else is added to the parent; here the filled body is passed along, which gives the
  same document. \<open>SetAttributeValue\<close> replaces the value of the attribute of that name
  when there is one and appends a new attribute otherwise.
\<close>

datatype Item =
    Attribute string cty_value
  | Block string "string list" "Item list"

type_synonym Body = "Item list"

fun itemName :: "Item \<Rightarrow> string" where
  "itemName (Attribute name v) = name"
| "itemName (Block typeName labels b) = typeName"

definition AppendNewBlock :: "string \<Rightarrow> string list \<Rightarrow> Body \<Rightarrow> Body \<Rightarrow> Body" where
  "AppendNewBlock typeName labels blockBody body = body @ [Block typeName labels blockBody]"

fun SetAttributeValue :: "string \<Rightarrow> cty_value \<Rightarrow> Body \<Rightarrow> Body" where
  "SetAttributeValue name val [] = [Attribute name val]"
| "SetAttributeValue name val (Attribute n v # items) =
     (if n = name then Attribute n val # items
      else Attribute n v # SetAttributeValue name val items)"
| "SetAttributeValue name val (Block n ls b # items) =
     Block n ls b # SetAttributeValue name val items"

text \<open>
  Errors are values. \<open>UnsupportedShape\<close> is the writer's error and carries the message
  that \<open>fmt.Errorf\<close> builds; \<open>ConverterFailure\<close> stands for the error of a converter and
  \<open>FormatFailure\<close> for one of the printer, both opaque to this code.
\<close>

datatype error =
    UnsupportedShape string
  | ConverterFailure string
  | FormatFailure string

section \<open>The block tree writer (\<open>hclWriteBlock\<close>)\<close>

text \<open>A size for the termination of the writer: the elements an iterator still holds.\<close>

fun iterSize :: "(cty_value \<times> cty_value) list \<Rightarrow> nat" where
  "iterSize [] = 0"
| "iterSize ((k, v) # it) = Suc (size v) + iterSize it"

lemma iterSize_indexed: "iterSize (indexed i vals) = size_list size vals"
  by (induction vals arbitrary: i) auto

lemma iterSize_set: "iterSize (map (\<lambda>v. (v, v)) vals) = size_list size vals"
  by (induction vals) auto

lemma iterSize_map:
  "iterSize (map (\<lambda>(key, v). (StringVal key, v)) vals)
     \<le> size_list (size_prod (\<lambda>x. 0) size) vals"
  by (induction vals) auto

lemma iterSize_ElementIterator: "iterSize (ElementIterator val) \<le> size val"
proof (cases val)
  case (MapVal ety vals)
  then show ?thesis using iterSize_map [of vals] by simp
next
  case (ObjectVal attrs)
  then show ?thesis using iterSize_map [of attrs] by simp
qed (simp_all add: iterSize_indexed iterSize_set)

lemma iterSize_ElementIterator_less:
  "2 * iterSize (ElementIterator val) < Suc (Suc (2 * size val + n))"
  using iterSize_ElementIterator [of val] by simp

lemma iterSize_ElementIterator_less0:
  "2 * iterSize (ElementIterator val) < Suc (2 * size val)"
  using iterSize_ElementIterator [of val] by simp

text \<open>
  The writer, as the source has it. \<open>hclWriteBlock\<close> is the function; \<open>hclWriteFields\<close>
  is its loop \<open>for it.Next()\<close> over the attributes of the object, with the \<open>switch\<close> on the
  attribute's type as a chain of tests in the source's order (an object type; a
  collection type, which is skipped when empty, written as repeated blocks when it is no
  map and its elements are objects, and falls through otherwise; the default, which skips
  an empty string and sets an attribute); \<open>hclWriteElements\<close> is the inner loop
  \<open>for listIterator.Next()\<close>. Every \<open>continue\<close> is a call on the rest of the iterator
  with the body as it is, every \<open>return err\<close> an \<open>Inl\<close>.
\<close>

function hclWriteBlock :: "cty_value \<Rightarrow> Body \<Rightarrow> error + Body"
  and hclWriteFields :: "(cty_value \<times> cty_value) list \<Rightarrow> Body \<Rightarrow> error + Body"
  and hclWriteElements ::
    "cty_value \<Rightarrow> (cty_value \<times> cty_value) list \<Rightarrow> Body \<Rightarrow> error + Body"
where
  "hclWriteBlock val body =
     (if IsNull val then Inr body
      else if \<not> IsObjectType (ctyType val) then
        Inl (UnsupportedShape
              (''expect object type only, but type = '' @ FriendlyName (ctyType val)))
      else hclWriteFields (ElementIterator val) body)"
| "hclWriteFields [] body = Inr body"
| "hclWriteFields ((objKey, objVal) # it) body =
     (if IsNull objVal then hclWriteFields it body
      else if IsObjectType (ctyType objVal) then
        (case hclWriteBlock objVal [] of
           Inl err \<Rightarrow> Inl err
         | Inr newBlock \<Rightarrow>
             hclWriteFields it (AppendNewBlock (AsString objKey) [] newBlock body))
      else if IsCollectionType (ctyType objVal) \<and> LengthInt objVal = 0 then
        hclWriteFields it body
      else if IsCollectionType (ctyType objVal) \<and> \<not> IsMapType (ctyType objVal)
              \<and> IsObjectType (ElementType (ctyType objVal)) then
        (case hclWriteElements objKey (ElementIterator objVal) body of
           Inl err \<Rightarrow> Inl err
         | Inr body' \<Rightarrow> hclWriteFields it body')
      else if FriendlyName (ctyType objVal) = ''string'' \<and> AsString objVal = '''' then
        hclWriteFields it body
      else hclWriteFields it (SetAttributeValue (AsString objKey) objVal body))"
| "hclWriteElements objKey [] body = Inr body"
| "hclWriteElements objKey ((idx, listVal) # listIterator) body =
     (case hclWriteBlock listVal [] of
        Inl err \<Rightarrow> Inl err
      | Inr subBlock \<Rightarrow>
          hclWriteElements objKey listIterator
            (AppendNewBlock (AsString objKey) [] subBlock body))"
  by pat_completeness auto
termination
  by (relation "measure (\<lambda>x. case x of
          Inl (val, body) \<Rightarrow> 2 * size val + 2
        | Inr (Inl (it, body)) \<Rightarrow> 2 * iterSize it + 1
        | Inr (Inr (objKey, it, body)) \<Rightarrow> 2 * iterSize it + 1)")
     (simp_all add: iterSize_ElementIterator_less iterSize_ElementIterator_less0)

declare hclWriteBlock.simps [simp del]

subsection \<open>The guarded library calls stay inside their domain\<close>

lemma string_value:
  "\<not> IsNull v \<Longrightarrow> FriendlyName (ctyType v) = ''string'' \<Longrightarrow> \<exists>s. v = StringVal s"
  by (cases v) (auto split: if_splits)

lemma object_keys_are_strings:
  "(k, v) \<in> set (ElementIterator (ObjectVal attrs)) \<Longrightarrow> \<exists>name. k = StringVal name"
  by auto

subsection \<open>The root of a block body\<close>

text \<open>
  Claim C3, as amended: a value that is not null and whose type is not an object type
  makes the writer fail with the unsupported-shape error, whatever the body; a null
  value of any type, object or not, is accepted and leaves the body as it is, because
  the null test comes before the type test.
\<close>

theorem hclWriteBlock_root_shape:
  "(\<not> IsNull val \<and> \<not> IsObjectType (ctyType val) \<longrightarrow>
      hclWriteBlock val body =
        Inl (UnsupportedShape
              (''expect object type only, but type = '' @ FriendlyName (ctyType val))))
   \<and> (IsNull val \<longrightarrow> hclWriteBlock val body = Inr body)"
  by (simp add: hclWriteBlock.simps)

theorem hclWriteBlock_root_shape_witness:
  "\<not> IsNull (StringVal ''x'') \<and> \<not> IsObjectType (ctyType (StringVal ''x''))
   \<and> hclWriteBlock (StringVal ''x'') [] =
       Inl (UnsupportedShape ''expect object type only, but type = string'')
   \<and> \<not> IsNull (ListVal cty_DynamicPseudoType [])
   \<and> \<not> IsObjectType (ctyType (ListVal cty_DynamicPseudoType []))
   \<and> hclWriteBlock (ListVal cty_DynamicPseudoType []) [] =
       Inl (UnsupportedShape ''expect object type only, but type = list of dynamic'')
   \<and> IsNull (NullVal (cty_List cty_String))
   \<and> hclWriteBlock (NullVal (cty_List cty_String)) [] = Inr []"
  using hclWriteBlock_root_shape [of "StringVal ''x''" "[]"]
        hclWriteBlock_root_shape [of "ListVal cty_DynamicPseudoType []" "[]"]
        hclWriteBlock_root_shape [of "NullVal (cty_List cty_String)" "[]"]
  by simp

text \<open>
  Claim C3 as the spec states it (no success for a root that is not of an object type) is
  refuted by the null string: its type is no object type and the writer returns success.
\<close>

theorem hclWriteBlock_null_root_counterexample:
  "\<not> IsObjectType (ctyType (NullVal cty_String))
   \<and> hclWriteBlock (NullVal cty_String) [] = Inr []"
  by (simp add: hclWriteBlock.simps)

subsection \<open>What a pass over the attributes adds to the body\<close>

text \<open>
  The items of a body that carry a given name are followed through the writer: setting
  an attribute of another name and appending a block of another name leave them as they
  are.
\<close>

lemma itemsNamed_SetAttributeValue:
  "name \<noteq> k \<Longrightarrow> filter (\<lambda>i. itemName i = k) (SetAttributeValue name val body) = filter (\<lambda>i. itemName i = k) body"
  by (induction name val body rule: SetAttributeValue.induct) auto

lemma itemsNamed_AppendNewBlock:
  "filter (\<lambda>i. itemName i = k) (AppendNewBlock n ls b body)
     = filter (\<lambda>i. itemName i = k) body @ (if n = k then [Block n ls b] else [])"
  by (simp add: AppendNewBlock_def)

lemma hclWriteElements_result:
  "hclWriteElements key it body = Inr out \<longleftrightarrow>
     (\<exists>bodies. map (\<lambda>v. hclWriteBlock v []) (map snd it) = map Inr bodies
        \<and> out = body @ map (Block (AsString key) []) bodies)"
proof (induction it arbitrary: body)
  case Nil
  then show ?case by auto
next
  case (Cons p it)
  obtain idx listVal where p: "p = (idx, listVal)" by (cases p)
  let ?f = "\<lambda>v. hclWriteBlock v []"
  show ?case
  proof (cases "hclWriteBlock listVal []")
    case (Inl err)
    then have "hclWriteElements key (p # it) body = Inl err" using p by simp
    moreover have "\<not> (\<exists>bodies. map ?f (map snd (p # it)) = map Inr bodies
        \<and> out = body @ map (Block (AsString key) []) bodies)"
    proof
      assume "\<exists>bodies. map ?f (map snd (p # it)) = map Inr bodies
        \<and> out = body @ map (Block (AsString key) []) bodies"
      then obtain bodies where "map ?f (map snd (p # it)) = map Inr bodies" by blast
      then have "hclWriteBlock listVal [] # map ?f (map snd it) = map Inr bodies"
        using p by simp
      then show False using Inl by (cases bodies) auto
    qed
    ultimately show ?thesis by simp
  next
    case (Inr subBlock)
    let ?body' = "AppendNewBlock (AsString key) [] subBlock body"
    have step: "hclWriteElements key (p # it) body = hclWriteElements key it ?body'"
      using p Inr by simp
    have IH: "hclWriteElements key it ?body' = Inr out \<longleftrightarrow>
       (\<exists>bodies. map ?f (map snd it) = map Inr bodies
          \<and> out = ?body' @ map (Block (AsString key) []) bodies)"
      by (rule Cons.IH)
    show ?thesis
    proof
      assume "hclWriteElements key (p # it) body = Inr out"
      with step IH obtain bodies where
        b: "map ?f (map snd it) = map Inr bodies"
           "out = ?body' @ map (Block (AsString key) []) bodies"
        by auto
      have "map ?f (map snd (p # it)) = map Inr (subBlock # bodies)"
        using p Inr b(1) by simp
      moreover have "out = body @ map (Block (AsString key) []) (subBlock # bodies)"
        using b(2) by (simp add: AppendNewBlock_def)
      ultimately show "\<exists>bodies. map ?f (map snd (p # it)) = map Inr bodies
        \<and> out = body @ map (Block (AsString key) []) bodies" by blast
    next
      assume "\<exists>bodies. map ?f (map snd (p # it)) = map Inr bodies
        \<and> out = body @ map (Block (AsString key) []) bodies"
      then obtain bodies where
        b: "map ?f (map snd (p # it)) = map Inr bodies"
           "out = body @ map (Block (AsString key) []) bodies"
        by blast
      from b(1) p have "hclWriteBlock listVal [] # map ?f (map snd it) = map Inr bodies"
        by simp
      then obtain b' bs where bs: "bodies = b' # bs" "hclWriteBlock listVal [] = Inr b'"
        "map ?f (map snd it) = map Inr bs"
        by (cases bodies) auto
      with Inr have "b' = subBlock" by simp
      with b(2) bs have "out = ?body' @ map (Block (AsString key) []) bs"
        by (simp add: AppendNewBlock_def)
      with bs(3) IH have "hclWriteElements key it ?body' = Inr out" by blast
      with step show "hclWriteElements key (p # it) body = Inr out" by simp
    qed
  qed
qed

text \<open>
  A pass over attributes none of which can write under the name \<open>k\<close> (each attribute
  of that name is null or the empty string) leaves the items named \<open>k\<close> as they were.
\<close>

lemma hclWriteFields_unnamed:
  "hclWriteFields it body = Inr out \<Longrightarrow>
   \<forall>(key, v) \<in> set it. AsString key = k \<longrightarrow> IsNull v \<or> v = StringVal [] \<Longrightarrow>
   filter (\<lambda>i. itemName i = k) out = filter (\<lambda>i. itemName i = k) body"
proof (induction it arbitrary: body)
  case Nil
  then show ?case by simp
next
  case (Cons p it)
  obtain objKey objVal where p: "p = (objKey, objVal)" by (cases p)
  from Cons.prems(2) have rest: "\<forall>(key, v) \<in> set it. AsString key = k \<longrightarrow> IsNull v \<or> v = StringVal []"
    by simp
  from Cons.prems(2) p have hd: "AsString objKey = k \<longrightarrow> IsNull objVal \<or> objVal = StringVal []"
    by simp
  note IH = Cons.IH [OF _ rest]
  consider (null) "IsNull objVal"
    | (obj) "\<not> IsNull objVal" "IsObjectType (ctyType objVal)"
    | (empty) "\<not> IsNull objVal" "\<not> IsObjectType (ctyType objVal)"
        "IsCollectionType (ctyType objVal) \<and> LengthInt objVal = 0"
    | (elems) "\<not> IsNull objVal" "\<not> IsObjectType (ctyType objVal)"
        "\<not> (IsCollectionType (ctyType objVal) \<and> LengthInt objVal = 0)"
        "IsCollectionType (ctyType objVal) \<and> \<not> IsMapType (ctyType objVal)
              \<and> IsObjectType (ElementType (ctyType objVal))"
    | (emptystr) "\<not> IsNull objVal" "\<not> IsObjectType (ctyType objVal)"
        "\<not> (IsCollectionType (ctyType objVal) \<and> LengthInt objVal = 0)"
        "\<not> (IsCollectionType (ctyType objVal) \<and> \<not> IsMapType (ctyType objVal)
              \<and> IsObjectType (ElementType (ctyType objVal)))"
        "FriendlyName (ctyType objVal) = ''string'' \<and> AsString objVal = ''''"
    | (attr) "\<not> IsNull objVal" "\<not> IsObjectType (ctyType objVal)"
        "\<not> (IsCollectionType (ctyType objVal) \<and> LengthInt objVal = 0)"
        "\<not> (IsCollectionType (ctyType objVal) \<and> \<not> IsMapType (ctyType objVal)
              \<and> IsObjectType (ElementType (ctyType objVal)))"
        "\<not> (FriendlyName (ctyType objVal) = ''string'' \<and> AsString objVal = '''')"
    by blast
  then show ?case
  proof cases
    case null
    with Cons.prems(1) p IH show ?thesis by simp
  next
    case obj
    then have ne: "AsString objKey \<noteq> k" using hd by auto
    from Cons.prems(1) p obj obtain newBlock where
      "hclWriteBlock objVal [] = Inr newBlock"
      "hclWriteFields it (AppendNewBlock (AsString objKey) [] newBlock body) = Inr out"
      by (auto split: sum.splits)
    from IH [OF this(2)] ne show ?thesis by (simp add: itemsNamed_AppendNewBlock)
  next
    case empty
    with Cons.prems(1) p IH show ?thesis by simp
  next
    case elems
    then have ne: "AsString objKey \<noteq> k" using hd by auto
    from Cons.prems(1) p elems obtain body' where
      b: "hclWriteElements objKey (ElementIterator objVal) body = Inr body'"
      "hclWriteFields it body' = Inr out"
      by (auto split: sum.splits)
    from b(1) ne have "filter (\<lambda>i. itemName i = k) body' = filter (\<lambda>i. itemName i = k) body"
      by (auto simp: hclWriteElements_result filter_empty_conv)
    with IH [OF b(2)] show ?thesis by simp
  next
    case emptystr
    with Cons.prems(1) p IH show ?thesis by simp
  next
    case attr
    then have ne: "AsString objKey \<noteq> k" using hd by auto
    from Cons.prems(1) p attr have
      "hclWriteFields it (SetAttributeValue (AsString objKey) objVal body) = Inr out"
      by simp
    from IH [OF this] ne show ?thesis by (simp add: itemsNamed_SetAttributeValue)
  qed
qed

subsection \<open>Well-typed object values are always written\<close>

lemma indexed_snd: "map snd (indexed i vals) = vals"
  by (induction vals arbitrary: i) auto

lemma well_typed_elements:
  "well_typed val \<Longrightarrow> (k, v) \<in> set (ElementIterator val) \<Longrightarrow> well_typed v"
proof (cases val)
  case (ListVal ety vals)
  assume "well_typed val" "(k, v) \<in> set (ElementIterator val)"
  with ListVal have "v \<in> set (map snd (indexed 0 vals))" by force
  with \<open>well_typed val\<close> ListVal show ?thesis by (simp add: indexed_snd list_all_iff)
next
  case (TupleVal vals)
  assume "well_typed val" "(k, v) \<in> set (ElementIterator val)"
  with TupleVal have "v \<in> set (map snd (indexed 0 vals))" by force
  with \<open>well_typed val\<close> TupleVal show ?thesis by (simp add: indexed_snd list_all_iff)
qed (auto simp: list_all_iff)

lemma well_typed_element_type:
  "well_typed val \<Longrightarrow> IsCollectionType (ctyType val) \<Longrightarrow> \<not> IsMapType (ctyType val) \<Longrightarrow>
   (k, v) \<in> set (ElementIterator val) \<Longrightarrow> ctyType v = ElementType (ctyType val)"
proof (cases val)
  case (ListVal ety vals)
  assume "well_typed val" "(k, v) \<in> set (ElementIterator val)"
  with ListVal have "v \<in> set (map snd (indexed 0 vals))" by force
  with \<open>well_typed val\<close> ListVal show ?thesis by (simp add: indexed_snd list_all_iff)
qed (auto simp: list_all_iff)

lemma hclWrite_succeeds:
  "well_typed val \<Longrightarrow> IsObjectType (ctyType val) \<Longrightarrow> \<exists>out. hclWriteBlock val body = Inr out"
  "\<forall>(k, v) \<in> set it. well_typed v \<Longrightarrow> \<exists>out. hclWriteFields it body = Inr out"
  "\<forall>(k, v) \<in> set els. well_typed v \<and> IsObjectType (ctyType v) \<Longrightarrow>
     \<exists>out. hclWriteElements key els body = Inr out"
proof (induction val body and it body and key els body
       rule: hclWriteBlock_hclWriteFields_hclWriteElements.induct)
  case (1 val body)
  show ?case
  proof (cases "IsNull val")
    case True
    then show ?thesis by (simp add: hclWriteBlock.simps)
  next
    case False
    have "\<forall>(k, v) \<in> set (ElementIterator val). well_typed v"
      using well_typed_elements [OF "1.prems"(1)] by auto
    from "1.IH" [OF False _ this] "1.prems"(2) False show ?thesis
      by (simp add: hclWriteBlock.simps)
  qed
next
  case (2 body)
  then show ?case by simp
next
  case (3 objKey objVal it body)
  from "3.prems" have wt: "well_typed objVal" and rest: "\<forall>(k, v) \<in> set it. well_typed v"
    by auto
  consider (null) "IsNull objVal"
    | (obj) "\<not> IsNull objVal" "IsObjectType (ctyType objVal)"
    | (empty) "\<not> IsNull objVal" "\<not> IsObjectType (ctyType objVal)"
        "IsCollectionType (ctyType objVal) \<and> LengthInt objVal = 0"
    | (elems) "\<not> IsNull objVal" "\<not> IsObjectType (ctyType objVal)"
        "\<not> (IsCollectionType (ctyType objVal) \<and> LengthInt objVal = 0)"
        "IsCollectionType (ctyType objVal) \<and> \<not> IsMapType (ctyType objVal)
              \<and> IsObjectType (ElementType (ctyType objVal))"
    | (emptystr) "\<not> IsNull objVal" "\<not> IsObjectType (ctyType objVal)"
        "\<not> (IsCollectionType (ctyType objVal) \<and> LengthInt objVal = 0)"
        "\<not> (IsCollectionType (ctyType objVal) \<and> \<not> IsMapType (ctyType objVal)
              \<and> IsObjectType (ElementType (ctyType objVal)))"
        "FriendlyName (ctyType objVal) = ''string'' \<and> AsString objVal = ''''"
    | (attr) "\<not> IsNull objVal" "\<not> IsObjectType (ctyType objVal)"
        "\<not> (IsCollectionType (ctyType objVal) \<and> LengthInt objVal = 0)"
        "\<not> (IsCollectionType (ctyType objVal) \<and> \<not> IsMapType (ctyType objVal)
              \<and> IsObjectType (ElementType (ctyType objVal)))"
        "\<not> (FriendlyName (ctyType objVal) = ''string'' \<and> AsString objVal = '''')"
    by blast
  then show ?case
  proof cases
    case null
    with "3.IH"(1) [OF null rest] show ?thesis by simp
  next
    case obj
    from "3.IH"(2) [OF obj wt obj(2)] obtain newBlock where
      nb: "hclWriteBlock objVal [] = Inr newBlock" by blast
    from "3.IH"(3) [OF obj nb rest] nb obj show ?thesis by simp
  next
    case empty
    with "3.IH"(4) [OF empty rest] show ?thesis by simp
  next
    case elems
    have "\<forall>(k, v) \<in> set (ElementIterator objVal). well_typed v \<and> IsObjectType (ctyType v)"
      using well_typed_elements [OF wt] well_typed_element_type [OF wt] elems(4) by auto
    from "3.IH"(5) [OF elems(1-4) this] obtain body' where
      b: "hclWriteElements objKey (ElementIterator objVal) body = Inr body'" by blast
    from "3.IH"(6) [OF elems(1-4) b rest] b elems show ?thesis by simp
  next
    case emptystr
    with "3.IH"(7) [OF emptystr rest] show ?thesis by auto
  next
    case attr
    with "3.IH"(8) [OF attr rest] show ?thesis by auto
  qed
next
  case (4 objKey body)
  then show ?case by simp
next
  case (5 objKey idx listVal listIterator body)
  from "5.prems" have wt: "well_typed listVal" "IsObjectType (ctyType listVal)"
    and rest: "\<forall>(k, v) \<in> set listIterator. well_typed v \<and> IsObjectType (ctyType v)"
    by auto
  from "5.IH"(1) [OF wt] obtain subBlock where
    sb: "hclWriteBlock listVal [] = Inr subBlock" by blast
  from "5.IH"(2) [OF sb rest] sb show ?case by simp
qed

subsection \<open>One pass of the attribute loop\<close>

text \<open>
  The body of the loop \<open>for it.Next()\<close>, taken alone: what one attribute does to the body.
  The loop is this step, repeated (\<open>hclWriteFields_step\<close>), and so splits at any point of
  the iterator (\<open>hclWriteFields_append\<close>).
\<close>

fun writeField :: "cty_value \<times> cty_value \<Rightarrow> Body \<Rightarrow> error + Body" where
  "writeField (objKey, objVal) body =
     (if IsNull objVal then Inr body
      else if IsObjectType (ctyType objVal) then
        (case hclWriteBlock objVal [] of
           Inl err \<Rightarrow> Inl err
         | Inr newBlock \<Rightarrow> Inr (AppendNewBlock (AsString objKey) [] newBlock body))
      else if IsCollectionType (ctyType objVal) \<and> LengthInt objVal = 0 then Inr body
      else if IsCollectionType (ctyType objVal) \<and> \<not> IsMapType (ctyType objVal)
              \<and> IsObjectType (ElementType (ctyType objVal)) then
        hclWriteElements objKey (ElementIterator objVal) body
      else if FriendlyName (ctyType objVal) = ''string'' \<and> AsString objVal = '''' then
        Inr body
      else Inr (SetAttributeValue (AsString objKey) objVal body))"

lemma hclWriteFields_step:
  "hclWriteFields (p # it) body =
     (case writeField p body of Inl err \<Rightarrow> Inl err | Inr body' \<Rightarrow> hclWriteFields it body')"
  by (cases p) (simp split: sum.split)

lemma hclWriteFields_append:
  "hclWriteFields (xs @ ys) body =
     (case hclWriteFields xs body of Inl err \<Rightarrow> Inl err | Inr body' \<Rightarrow> hclWriteFields ys body')"
proof (induction xs arbitrary: body)
  case Nil
  then show ?case by simp
next
  case (Cons p xs)
  show ?case
  proof (cases "writeField p body")
    case (Inl err)
    then show ?thesis by (simp only: append_Cons hclWriteFields_step sum.case)
  next
    case (Inr body')
    then show ?thesis by (simp only: append_Cons hclWriteFields_step sum.case Cons.IH)
  qed
qed

lemma hclWriteBlock_ObjectVal:
  "hclWriteBlock (ObjectVal attrs) body =
     hclWriteFields (map (\<lambda>(name, v). (StringVal name, v)) attrs) body"
  by (simp add: hclWriteBlock.simps)

lemma ObjectVal_succeeds:
  assumes "well_typed (ObjectVal attrs)"
  shows "\<exists>out. hclWriteFields (map (\<lambda>(name, v). (StringVal name, v)) attrs) body = Inr out"
  using hclWrite_succeeds(1) [OF assms, of body] by (simp add: hclWriteBlock_ObjectVal)


subsection \<open>Null and empty-string attributes\<close>

text \<open>
  Claim C5: when the writer renders an object-typed value, an attribute whose value is
  null and an attribute whose value is the empty string are both left out of the emitted
  body. For a well-typed object value the writer succeeds, and the items of the body
  that carry the attribute's name are the ones the body had before: nothing is written
  under that name, neither an attribute nor a block. The writer is always called on a
  fresh, empty body, where this says the name does not occur among the emitted items.
\<close>

theorem hclWriteBlock_omits_null_and_empty_string:
  assumes wt: "well_typed (ObjectVal attrs)"
    and fld: "(name, v) \<in> set attrs"
    and v: "IsNull v \<or> v = StringVal ''''"
  shows "\<exists>out. hclWriteBlock (ObjectVal attrs) body = Inr out
           \<and> filter (\<lambda>i. itemName i = name) out = filter (\<lambda>i. itemName i = name) body"
proof -
  let ?it = "map (\<lambda>(name, v). (StringVal name, v)) attrs"
  from ObjectVal_succeeds [OF wt] obtain out where out: "hclWriteFields ?it body = Inr out"
    by blast
  from wt have d: "distinct (map fst attrs)" by simp
  have same: "IsNull w \<or> w = StringVal []" if "(name, w) \<in> set attrs" for w
  proof -
    from d that fld have "w = v" by (rule eq_key_imp_eq_value)
    with v show ?thesis by simp
  qed
  have "\<forall>(key, w) \<in> set ?it. AsString key = name \<longrightarrow> IsNull w \<or> w = StringVal []"
    using same by fastforce
  from hclWriteFields_unnamed [OF out this] out show ?thesis
    by (simp add: hclWriteBlock_ObjectVal)
qed

theorem hclWriteBlock_omits_null_and_empty_string_witness:
  "well_typed (ObjectVal [(''a'', StringVal ''x''), (''b'', NullVal cty_String),
                          (''c'', StringVal '''')])
   \<and> IsNull (NullVal cty_String)
   \<and> hclWriteBlock (ObjectVal [(''a'', StringVal ''x''), (''b'', NullVal cty_String),
                               (''c'', StringVal '''')]) []
       = Inr [Attribute ''a'' (StringVal ''x'')]
   \<and> (\<exists>out. hclWriteBlock (ObjectVal [(''a'', StringVal ''x''), (''b'', NullVal cty_String),
                                      (''c'', StringVal '''')]) [] = Inr out
          \<and> filter (\<lambda>i. itemName i = ''b'') out = [])
   \<and> (\<exists>out. hclWriteBlock (ObjectVal [(''a'', StringVal ''x''), (''b'', NullVal cty_String),
                                      (''c'', StringVal '''')]) [] = Inr out
          \<and> filter (\<lambda>i. itemName i = ''c'') out = [])"
  using hclWriteBlock_omits_null_and_empty_string
          [of "[(''a'', StringVal ''x''), (''b'', NullVal cty_String), (''c'', StringVal '''')]"
              "''b''" "NullVal cty_String" "[]"]
        hclWriteBlock_omits_null_and_empty_string
          [of "[(''a'', StringVal ''x''), (''b'', NullVal cty_String), (''c'', StringVal '''')]"
              "''c''" "StringVal ''''" "[]"]
  by (simp add: hclWriteBlock.simps)

subsection \<open>Lists of objects\<close>

text \<open>
  Claim C6: for an attribute of an object-typed value whose value is a non-empty
  collection that is no map and whose elements are of an object type, the writer emits
  one nested block named after the attribute for each element, in the order of the
  elements. For a well-typed object value the writer succeeds, every element is written
  into a body of its own, and the items of the result named after the attribute are the
  ones the body had before followed by exactly these blocks, without labels, one for
  each element and in the iterator's order.
\<close>

theorem hclWriteBlock_repeated_blocks:
  assumes wt: "well_typed (ObjectVal attrs)"
    and fld: "(name, coll) \<in> set attrs"
    and nn: "\<not> IsNull coll"
    and ty: "IsCollectionType (ctyType coll)" "\<not> IsMapType (ctyType coll)"
            "IsObjectType (ElementType (ctyType coll))"
    and len: "LengthInt coll \<noteq> 0"
  shows "\<exists>out bodies. hclWriteBlock (ObjectVal attrs) body = Inr out
           \<and> map (\<lambda>v. hclWriteBlock v []) (map snd (ElementIterator coll)) = map Inr bodies
           \<and> filter (\<lambda>i. itemName i = name) out
               = filter (\<lambda>i. itemName i = name) body @ map (Block name []) bodies"
proof -
  let ?F = "map (\<lambda>(name, v). (StringVal name, v))"
  from ObjectVal_succeeds [OF wt] obtain out where out: "hclWriteFields (?F attrs) body = Inr out"
    by blast
  from wt have d: "distinct (map fst attrs)" by simp
  from fld obtain pre post where attrs: "attrs = pre @ (name, coll) # post"
    by (meson split_list)
  with d have npre: "name \<notin> fst ` set pre" and npost: "name \<notin> fst ` set post" by auto
  have pre_ok: "\<forall>(key, w) \<in> set (?F pre). AsString key = name \<longrightarrow> IsNull w \<or> w = StringVal []"
    using npre by force
  have post_ok: "\<forall>(key, w) \<in> set (?F post). AsString key = name \<longrightarrow> IsNull w \<or> w = StringVal []"
    using npost by force
  have split: "?F attrs = ?F pre @ (StringVal name, coll) # ?F post"
    using attrs by simp
  from out obtain b1 where b1: "hclWriteFields (?F pre) body = Inr b1"
    and r1: "hclWriteFields ((StringVal name, coll) # ?F post) b1 = Inr out"
    unfolding split hclWriteFields_append by (cases "hclWriteFields (?F pre) body") simp_all
  from ty(1) have no: "\<not> IsObjectType (ctyType coll)" by (cases "ctyType coll") auto
  have field: "writeField (StringVal name, coll) b1
                 = hclWriteElements (StringVal name) (ElementIterator coll) b1"
    using nn no ty len by simp
  from r1 obtain b2 where
    b2: "hclWriteElements (StringVal name) (ElementIterator coll) b1 = Inr b2"
    and r2: "hclWriteFields (?F post) b2 = Inr out"
    unfolding hclWriteFields_step field
    by (cases "hclWriteElements (StringVal name) (ElementIterator coll) b1") simp_all
  from b2 obtain bodies where
    bodies: "map (\<lambda>v. hclWriteBlock v []) (map snd (ElementIterator coll)) = map Inr bodies"
    and b2_eq: "b2 = b1 @ map (Block name []) bodies"
    unfolding hclWriteElements_result by auto
  have "filter (\<lambda>i. itemName i = name) out = filter (\<lambda>i. itemName i = name) b2"
    by (rule hclWriteFields_unnamed [OF r2 post_ok])
  also have "\<dots> = filter (\<lambda>i. itemName i = name) b1 @ map (Block name []) bodies"
    by (simp add: b2_eq filter_map comp_def)
  also have "filter (\<lambda>i. itemName i = name) b1 = filter (\<lambda>i. itemName i = name) body"
    by (rule hclWriteFields_unnamed [OF b1 pre_ok])
  finally show ?thesis using out bodies by (simp add: hclWriteBlock_ObjectVal)
qed

theorem hclWriteBlock_repeated_blocks_witness:
  "well_typed (ObjectVal [(''name'', StringVal ''n''),
       (''rule'', ListVal (cty_Object [(''port'', cty_String)])
          [ObjectVal [(''port'', StringVal ''80'')], ObjectVal [(''port'', StringVal ''443'')]])])
   \<and> LengthInt (ListVal (cty_Object [(''port'', cty_String)])
          [ObjectVal [(''port'', StringVal ''80'')], ObjectVal [(''port'', StringVal ''443'')]]) = 2
   \<and> hclWriteBlock (ObjectVal [(''name'', StringVal ''n''),
       (''rule'', ListVal (cty_Object [(''port'', cty_String)])
          [ObjectVal [(''port'', StringVal ''80'')], ObjectVal [(''port'', StringVal ''443'')]])]) []
       = Inr [Attribute ''name'' (StringVal ''n''),
              Block ''rule'' [] [Attribute ''port'' (StringVal ''80'')],
              Block ''rule'' [] [Attribute ''port'' (StringVal ''443'')]]
   \<and> (\<exists>out bodies. hclWriteBlock (ObjectVal [(''name'', StringVal ''n''),
       (''rule'', ListVal (cty_Object [(''port'', cty_String)])
          [ObjectVal [(''port'', StringVal ''80'')], ObjectVal [(''port'', StringVal ''443'')]])]) []
         = Inr out
      \<and> [hclWriteBlock (ObjectVal [(''port'', StringVal ''80'')]) [],
          hclWriteBlock (ObjectVal [(''port'', StringVal ''443'')]) []] = map Inr bodies
      \<and> filter (\<lambda>i. itemName i = ''rule'') out = map (Block ''rule'' []) bodies)"
  using hclWriteBlock_repeated_blocks
          [of "[(''name'', StringVal ''n''),
                (''rule'', ListVal (cty_Object [(''port'', cty_String)])
                   [ObjectVal [(''port'', StringVal ''80'')],
                    ObjectVal [(''port'', StringVal ''443'')]])]"
              "''rule''"
              "ListVal (cty_Object [(''port'', cty_String)])
                 [ObjectVal [(''port'', StringVal ''80'')], ObjectVal [(''port'', StringVal ''443'')]]"
              "[]"]
  by (simp add: hclWriteBlock.simps AppendNewBlock_def)

section \<open>The conversion orchestrator (\<open>Convert\<close>)\<close>

text \<open>
  An asset is an external record; \<open>Convert\<close> reads its type identifier only (the name
  is kept for the examples). A resource block is what a converter emits: its labels and
  the typed value of its body. A converter is anything with the capability
  \<open>Convert(assets) (items, err)\<close>; the pair is kept as Go returns it.
\<close>

record Asset =
  Name :: string
  Type :: string

record HCLResourceBlock =
  Labels :: "string list"
  Value :: cty_value

type_synonym Converter = "Asset list \<Rightarrow> HCLResourceBlock list \<times> error option"

text \<open>
  The first loop: \<open>groups[name] = append(groups[name], asset)\<close> for every asset whose type
  has an entry in \<open>converterNames\<close>; an asset without one is passed over (\<open>continue\<close>).
  Reading a missing key of a Go map gives the nil slice, to which \<open>append\<close> adds.
\<close>

fun groupAssets ::
  "Asset list \<Rightarrow> (string \<rightharpoonup> string) \<Rightarrow> (string \<rightharpoonup> Asset list) \<Rightarrow> (string \<rightharpoonup> Asset list)"
where
  "groupAssets [] converterNames groups = groups"
| "groupAssets (asset # assets) converterNames groups =
     (case converterNames (Type asset) of
        None \<Rightarrow> groupAssets assets converterNames groups
      | Some name \<Rightarrow>
          groupAssets assets converterNames
            (groups(name \<mapsto> (case groups name of None \<Rightarrow> [] | Some v \<Rightarrow> v) @ [asset])))"

text \<open>
  The inner loop over the items of one group: a block \<open>resource\<close> with the item's labels
  is appended to the root body and the item's value is written into it.
\<close>

fun writeItems :: "HCLResourceBlock list \<Rightarrow> Body \<Rightarrow> error + Body" where
  "writeItems [] rootBody = Inr rootBody"
| "writeItems (resourceBlock # items) rootBody =
     (case hclWriteBlock (Value resourceBlock) [] of
        Inl err \<Rightarrow> Inl err
      | Inr hclBlock \<Rightarrow>
          writeItems items
            (AppendNewBlock ''resource'' (Labels resourceBlock) hclBlock rootBody))"

text \<open>
  The second loop, \<open>for name, v := range groups\<close>. Go does not fix the order in which
  \<open>range\<close> visits the keys of a map, and it differs from run to run; the order of one
  run is the parameter \<open>order\<close>, a list of the keys of \<open>groups\<close> without repetition
  (\<open>rangeOrder\<close>). A group whose name has no converter is passed over; the first error of
  a converter or of the writer ends the loop and is the result. The second test
  \<open>if err != nil\<close> after the inner loop reads the converter's error again, which is nil
  there, and never fires. A name of \<open>order\<close> that is no key of \<open>groups\<close> is passed over
  as well; under \<open>rangeOrder\<close> there is none.
\<close>

definition rangeOrder :: "string list \<Rightarrow> (string \<rightharpoonup> 'v) \<Rightarrow> bool" where
  "rangeOrder order m \<longleftrightarrow> distinct order \<and> set order = dom m"

fun rangeGroups ::
  "string list \<Rightarrow> (string \<rightharpoonup> Asset list) \<Rightarrow> (string \<rightharpoonup> Converter) \<Rightarrow> Body \<Rightarrow> error + Body"
where
  "rangeGroups [] groups converterMap rootBody = Inr rootBody"
| "rangeGroups (name # rest) groups converterMap rootBody =
     (case groups name of
        None \<Rightarrow> rangeGroups rest groups converterMap rootBody
      | Some v \<Rightarrow>
          (case converterMap name of
             None \<Rightarrow> rangeGroups rest groups converterMap rootBody
           | Some converter \<Rightarrow>
               (case converter v of
                  (items, Some err) \<Rightarrow> Inl err
                | (items, None) \<Rightarrow>
                    (case writeItems items rootBody of
                       Inl err \<Rightarrow> Inl err
                     | Inr rootBody' \<Rightarrow> rangeGroups rest groups converterMap rootBody'))))"

text \<open>
  \<open>Convert\<close> itself. \<open>convertFile\<close> is the function up to its last line: the root body
  of the file \<open>f\<close>, or the error returned early. The last line hands the bytes of the file
  to the printer of the HCL library, \<open>printer.Format(f.Bytes())\<close>, which is the
  parameter \<open>Format\<close>: it renders the blocks in the order of the file and may fail.
\<close>

definition convertFile ::
  "string list \<Rightarrow> Asset list \<Rightarrow> (string \<rightharpoonup> string) \<Rightarrow> (string \<rightharpoonup> Converter) \<Rightarrow> error + Body"
where
  "convertFile order assets converterNames converterMap =
     rangeGroups order (groupAssets assets converterNames Map.empty) converterMap []"

definition Convert ::
  "(Body \<Rightarrow> error + 'bytes) \<Rightarrow> string list \<Rightarrow> Asset list \<Rightarrow> (string \<rightharpoonup> string)
     \<Rightarrow> (string \<rightharpoonup> Converter) \<Rightarrow> error + 'bytes"
where
  "Convert Format order assets converterNames converterMap =
     (case convertFile order assets converterNames converterMap of
        Inl err \<Rightarrow> Inl err
      | Inr f \<Rightarrow> Format f)"

text \<open>
  What one group contributes, taken alone: nothing when the name is no key of \<open>groups\<close>
  or has no converter, the converter's error, or the blocks of its items written one
  after the other (or the writer's error).
\<close>

definition groupOutput ::
  "(string \<rightharpoonup> Asset list) \<Rightarrow> (string \<rightharpoonup> Converter) \<Rightarrow> string \<Rightarrow> error + Body"
where
  "groupOutput groups converterMap name =
     (case groups name of
        None \<Rightarrow> Inr []
      | Some v \<Rightarrow>
          (case converterMap name of
             None \<Rightarrow> Inr []
           | Some converter \<Rightarrow>
               (case converter v of
                  (items, Some err) \<Rightarrow> Inl err
                | (items, None) \<Rightarrow> writeItems items [])))"

subsection \<open>A small batch\<close>

text \<open>
  Two assets of two types, a resolution table for both, a third asset of a type the
  table does not have, and two converters: one that emits for every asset a block
  labelled with a kind and the asset's name whose body holds the name, and one that
  fails.
\<close>

definition instance1 :: Asset where
  "instance1 = \<lparr>Name = ''i1'', Type = ''Instance''\<rparr>"

definition project1 :: Asset where
  "project1 = \<lparr>Name = ''p1'', Type = ''Project''\<rparr>"

definition bucket1 :: Asset where
  "bucket1 = \<lparr>Name = ''b1'', Type = ''Bucket''\<rparr>"

definition exampleNames :: "string \<rightharpoonup> string" where
  "exampleNames = [''Instance'' \<mapsto> ''instance'', ''Project'' \<mapsto> ''project'']"

definition nameOnly :: "string \<Rightarrow> Converter" where
  "nameOnly kind assets =
     (map (\<lambda>a. \<lparr>Labels = [kind, Name a], Value = ObjectVal [(''name'', StringVal (Name a))]\<rparr>)
        assets, None)"

definition failing :: "string \<Rightarrow> Converter" where
  "failing msg assets = ([], Some (ConverterFailure msg))"

lemmas example_defs =
  instance1_def project1_def bucket1_def exampleNames_def nameOnly_def failing_def
  Convert_def convertFile_def groupOutput_def rangeOrder_def
  hclWriteBlock.simps AppendNewBlock_def

subsection \<open>Grouping\<close>

lemma groupAssets_lookup:
  "groupAssets assets converterNames groups name =
     (if [a \<leftarrow> assets. converterNames (Type a) = Some name] = [] then groups name
      else Some ((case groups name of None \<Rightarrow> [] | Some v \<Rightarrow> v)
                  @ [a \<leftarrow> assets. converterNames (Type a) = Some name]))"
proof (induction assets arbitrary: groups)
  case Nil
  then show ?case by simp
next
  case (Cons asset assets)
  let ?new = "[a \<leftarrow> assets. converterNames (Type a) = Some name]"
  show ?case
  proof (cases "converterNames (Type asset)")
    case None
    then show ?thesis using Cons.IH [of groups] by simp
  next
    case (Some n)
    define old where "old = (case groups n of None \<Rightarrow> [] | Some v \<Rightarrow> v)"
    define groups' where "groups' = groups(n \<mapsto> old @ [asset])"
    have step: "groupAssets (asset # assets) converterNames groups name
            = groupAssets assets converterNames groups' name"
      using Some by (simp add: groups'_def old_def)
    have ih: "groupAssets assets converterNames groups' name =
       (if ?new = [] then groups' name
        else Some ((case groups' name of None \<Rightarrow> [] | Some v \<Rightarrow> v) @ ?new))"
      by (rule Cons.IH)
    show ?thesis
    proof (cases "n = name")
      case True
      then have "groups' name = Some (old @ [asset])" by (simp add: groups'_def)
      moreover have "[a \<leftarrow> asset # assets. converterNames (Type a) = Some name] = asset # ?new"
        using Some True by simp
      ultimately show ?thesis unfolding step ih using True by (simp add: old_def)
    next
      case False
      then have "groups' name = groups name" by (simp add: groups'_def)
      moreover have "[a \<leftarrow> asset # assets. converterNames (Type a) = Some name] = ?new"
        using Some False by simp
      ultimately show ?thesis unfolding step ih by simp
    qed
  qed
qed

lemma groupAssets_empty_lookup:
  "groupAssets assets converterNames Map.empty name =
     (if [a \<leftarrow> assets. converterNames (Type a) = Some name] = [] then None
      else Some [a \<leftarrow> assets. converterNames (Type a) = Some name])"
  by (simp add: groupAssets_lookup)

lemma groupAssets_resolvable:
  "groupAssets [a \<leftarrow> assets. converterNames (Type a) \<noteq> None] converterNames groups
     = groupAssets assets converterNames groups"
  by (induction assets arbitrary: groups) (auto split: option.splits)

subsection \<open>The loop over the groups, group by group\<close>

lemma writeItems_body:
  "writeItems items rootBody =
     (case writeItems items [] of Inl err \<Rightarrow> Inl err | Inr blocks \<Rightarrow> Inr (rootBody @ blocks))"
proof (induction items arbitrary: rootBody)
  case Nil
  then show ?case by simp
next
  case (Cons resourceBlock items)
  show ?case
  proof (cases "hclWriteBlock (Value resourceBlock) []")
    case (Inl err)
    then show ?thesis by simp
  next
    case (Inr hclBlock)
    let ?b = "Block ''resource'' (Labels resourceBlock) hclBlock"
    have 1: "writeItems (resourceBlock # items) rootBody = writeItems items (rootBody @ [?b])"
      using Inr by (simp add: AppendNewBlock_def)
    have 2: "writeItems (resourceBlock # items) [] = writeItems items [?b]"
      using Inr by (simp add: AppendNewBlock_def)
    show ?thesis
      unfolding 1 2
      using Cons.IH [of "rootBody @ [?b]"] Cons.IH [of "[?b]"]
      by (cases "writeItems items []") simp_all
  qed
qed

lemma rangeGroups_step:
  "rangeGroups (name # rest) groups converterMap rootBody =
     (case groupOutput groups converterMap name of
        Inl err \<Rightarrow> Inl err
      | Inr blocks \<Rightarrow> rangeGroups rest groups converterMap (rootBody @ blocks))"
proof (cases "groups name")
  case None
  then show ?thesis by (simp add: groupOutput_def)
next
  case (Some v)
  note v = this
  show ?thesis
  proof (cases "converterMap name")
    case None
    then show ?thesis using v by (simp add: groupOutput_def)
  next
    case (Some converter)
    obtain items err where c: "converter v = (items, err)" by (cases "converter v")
    show ?thesis
    proof (cases err)
      case (Some e)
      then show ?thesis using v \<open>converterMap name = Some converter\<close> c
        by (simp add: groupOutput_def)
    next
      case None
      then show ?thesis using v \<open>converterMap name = Some converter\<close> c
          writeItems_body [of items rootBody]
        by (cases "writeItems items []") (simp_all add: groupOutput_def)
    qed
  qed
qed

lemma rangeGroups_success:
  "\<forall>n \<in> set order. \<not> isl (groupOutput groups converterMap n) \<Longrightarrow>
   rangeGroups order groups converterMap rootBody
     = Inr (rootBody @ concat (map (\<lambda>n. projr (groupOutput groups converterMap n)) order))"
proof (induction order arbitrary: rootBody)
  case Nil
  then show ?case by simp
next
  case (Cons name rest)
  then obtain blocks where b: "groupOutput groups converterMap name = Inr blocks"
    by (cases "groupOutput groups converterMap name") auto
  from Cons.prems have "\<forall>n \<in> set rest. \<not> isl (groupOutput groups converterMap n)" by simp
  from Cons.IH [OF this, of "rootBody @ blocks"] b show ?case
    by (simp only: rangeGroups_step) simp
qed

lemma rangeGroups_first_failure:
  "name \<in> set order \<Longrightarrow>
   \<forall>m \<in> set (takeWhile (\<lambda>m. m \<noteq> name) order). \<not> isl (groupOutput groups converterMap m) \<Longrightarrow>
   groupOutput groups converterMap name = Inl err \<Longrightarrow>
   rangeGroups order groups converterMap rootBody = Inl err"
proof (induction order arbitrary: rootBody)
  case Nil
  then show ?case by simp
next
  case (Cons n rest)
  show ?case
  proof (cases "n = name")
    case True
    with Cons.prems(3) show ?thesis by (simp only: rangeGroups_step) simp
  next
    case False
    with Cons.prems(2) obtain blocks where b: "groupOutput groups converterMap n = Inr blocks"
      by (cases "groupOutput groups converterMap n") auto
    from False Cons.prems have "name \<in> set rest"
      "\<forall>m \<in> set (takeWhile (\<lambda>m. m \<noteq> name) rest). \<not> isl (groupOutput groups converterMap m)"
      by auto
    from Cons.IH [OF this Cons.prems(3), of "rootBody @ blocks"] b show ?thesis
      by (simp only: rangeGroups_step) simp
  qed
qed

lemma rangeGroups_failure:
  "name \<in> set order \<Longrightarrow> isl (groupOutput groups converterMap name) \<Longrightarrow>
   isl (rangeGroups order groups converterMap rootBody)"
proof (induction order arbitrary: rootBody)
  case Nil
  then show ?case by simp
next
  case (Cons n rest)
  show ?case
  proof (cases "groupOutput groups converterMap n")
    case (Inl err)
    then show ?thesis by (simp only: rangeGroups_step) simp
  next
    case (Inr blocks)
    with Cons.prems have "name \<in> set rest" by auto
    from Cons.IH [OF this Cons.prems(2), of "rootBody @ blocks"] Inr show ?thesis
      by (simp only: rangeGroups_step) simp
  qed
qed

lemma rangeGroups_isl:
  "isl (rangeGroups order groups converterMap rootBody)
     \<longleftrightarrow> (\<exists>n \<in> set order. isl (groupOutput groups converterMap n))"
  using rangeGroups_failure [of _ order groups converterMap rootBody]
        rangeGroups_success [of order groups converterMap rootBody]
  by (metis sum.disc(2))

lemma rangeGroups_cong:
  "\<forall>n \<in> set order. groups n = groups' n \<Longrightarrow>
   rangeGroups order groups converterMap rootBody = rangeGroups order groups' converterMap rootBody"
proof (induction order arbitrary: rootBody)
  case Nil
  then show ?case by simp
next
  case (Cons n rest)
  then have "groupOutput groups converterMap n = groupOutput groups' converterMap n"
    by (simp add: groupOutput_def)
  with Cons show ?case by (simp only: rangeGroups_step) (simp split: sum.split)
qed

lemma groupOutput_without_converter:
  "converterMap name = None \<Longrightarrow> groupOutput groups converterMap name = Inr []"
  by (simp add: groupOutput_def split: option.split)

lemma rangeGroups_without_converter:
  "rangeGroups [n \<leftarrow> order. converterMap n \<noteq> None] groups converterMap rootBody
     = rangeGroups order groups converterMap rootBody"
proof (induction order arbitrary: rootBody)
  case Nil
  then show ?case by simp
next
  case (Cons n rest)
  show ?case
  proof (cases "converterMap n")
    case None
    then show ?thesis
      using Cons.IH [of rootBody] groupOutput_without_converter [of converterMap n groups]
      by (simp add: rangeGroups_step del: rangeGroups.simps)
  next
    case (Some converter)
    then show ?thesis
      using Cons.IH
      by (simp add: rangeGroups_step del: rangeGroups.simps split: sum.split)
  qed
qed

subsection \<open>Assets without a resolution\<close>

lemma groupOutput_resolved:
  assumes "groupAssets assets converterNames Map.empty name \<noteq> None"
  shows "groupOutput (groupAssets assets converterNames Map.empty) converterMap name =
     (case converterMap name of
        None \<Rightarrow> Inr []
      | Some converter \<Rightarrow>
          (case converter [a \<leftarrow> assets. converterNames (Type a) = Some name] of
             (items, Some err) \<Rightarrow> Inl err
           | (items, None) \<Rightarrow> writeItems items []))"
proof -
  from assms have "groupAssets assets converterNames Map.empty name
      = Some [a \<leftarrow> assets. converterNames (Type a) = Some name]"
    by (simp add: groupAssets_empty_lookup split: if_splits)
  then show ?thesis by (simp add: groupOutput_def)
qed

text \<open>
  Claim C9: an asset whose type identifier has no entry in the resolution table is
  silently dropped: it adds no block and causes no error, and the resolvable assets are
  still converted. \<open>Convert\<close> returns on the whole batch exactly what it returns on the
  batch without these assets, the same document or the same error; every group holds
  exactly the assets of the batch that resolve to its name, in the order of the batch;
  and when no converter and no write fails, the document is the printer's rendering of
  the blocks that each group's converter emits on exactly those assets, written one
  after the other in traversal order: every resolvable asset of a group with a converter
  is handed to that converter and its blocks are in the file, and nothing else is.
\<close>

theorem Convert_drops_unresolved_assets:
  "Convert Format order assets converterNames converterMap
     = Convert Format order [a \<leftarrow> assets. converterNames (Type a) \<noteq> None]
         converterNames converterMap
   \<and> groupAssets assets converterNames Map.empty name
       = (if [a \<leftarrow> assets. converterNames (Type a) = Some name] = [] then None
          else Some [a \<leftarrow> assets. converterNames (Type a) = Some name])
   \<and> (rangeOrder order (groupAssets assets converterNames Map.empty)
        \<and> (\<forall>n \<in> set order. \<forall>converter. converterMap n = Some converter \<longrightarrow>
               snd (converter [a \<leftarrow> assets. converterNames (Type a) = Some n]) = None
             \<and> \<not> isl (writeItems
                        (fst (converter [a \<leftarrow> assets. converterNames (Type a) = Some n])) []))
        \<longrightarrow> Convert Format order assets converterNames converterMap
              = Format (concat (map
                  (\<lambda>n. case converterMap n of
                         None \<Rightarrow> []
                       | Some converter \<Rightarrow>
                           projr (writeItems
                             (fst (converter [a \<leftarrow> assets. converterNames (Type a) = Some n]))
                             []))
                  order)))"
proof (intro conjI impI)
  show "Convert Format order assets converterNames converterMap
     = Convert Format order [a \<leftarrow> assets. converterNames (Type a) \<noteq> None]
         converterNames converterMap"
    unfolding Convert_def convertFile_def groupAssets_resolvable by simp
  show "groupAssets assets converterNames Map.empty name
       = (if [a \<leftarrow> assets. converterNames (Type a) = Some name] = [] then None
          else Some [a \<leftarrow> assets. converterNames (Type a) = Some name])"
    by (rule groupAssets_empty_lookup)
next
  let ?g = "groupAssets assets converterNames Map.empty"
  let ?resolved = "\<lambda>n. [a \<leftarrow> assets. converterNames (Type a) = Some n]"
  let ?blocks = "\<lambda>n. case converterMap n of
                         None \<Rightarrow> []
                       | Some converter \<Rightarrow> projr (writeItems (fst (converter (?resolved n))) [])"
  assume hyp: "rangeOrder order ?g
        \<and> (\<forall>n \<in> set order. \<forall>converter. converterMap n = Some converter \<longrightarrow>
               snd (converter (?resolved n)) = None
             \<and> \<not> isl (writeItems (fst (converter (?resolved n))) []))"
  have out: "groupOutput ?g converterMap n = Inr (?blocks n)" if n: "n \<in> set order" for n
  proof -
    from hyp n have "?g n \<noteq> None" by (auto simp: rangeOrder_def)
    note eq = groupOutput_resolved [OF this, of converterMap]
    show ?thesis
    proof (cases "converterMap n")
      case None
      then show ?thesis using eq by simp
    next
      case (Some converter)
      with hyp n have ok: "snd (converter (?resolved n)) = None"
        "\<not> isl (writeItems (fst (converter (?resolved n))) [])" by auto
      obtain items err where c: "converter (?resolved n) = (items, err)"
        by (cases "converter (?resolved n)")
      with ok have "err = None" "\<not> isl (writeItems items [])" by simp_all
      then show ?thesis using eq Some c by (cases "writeItems items []") simp_all
    qed
  qed
  then have "\<forall>n \<in> set order. \<not> isl (groupOutput ?g converterMap n)" by simp
  from rangeGroups_success [OF this, of "[]"]
  have "rangeGroups order ?g converterMap []
          = Inr (concat (map (\<lambda>n. projr (groupOutput ?g converterMap n)) order))" by simp
  also have "map (\<lambda>n. projr (groupOutput ?g converterMap n)) order = map ?blocks order"
    by (rule map_cong) (simp_all add: out)
  finally show "Convert Format order assets converterNames converterMap
      = Format (concat (map ?blocks order))"
    by (simp add: Convert_def convertFile_def)
qed

theorem Convert_drops_unresolved_assets_witness:
  "exampleNames (Type bucket1) = None
   \<and> rangeOrder [''project'', ''instance'']
        (groupAssets [instance1, bucket1, project1] exampleNames Map.empty)
   \<and> nameOnly ''vm'' [instance1]
        = ([\<lparr>Labels = [''vm'', ''i1''], Value = ObjectVal [(''name'', StringVal ''i1'')]\<rparr>], None)
   \<and> writeItems (fst (nameOnly ''vm'' [instance1])) []
        = Inr [Block ''resource'' [''vm'', ''i1''] [Attribute ''name'' (StringVal ''i1'')]]
   \<and> Convert Inr [''project'', ''instance''] [instance1, bucket1, project1] exampleNames
        [''instance'' \<mapsto> nameOnly ''vm'', ''project'' \<mapsto> nameOnly ''prj'']
       = Inr [Block ''resource'' [''prj'', ''p1''] [Attribute ''name'' (StringVal ''p1'')],
              Block ''resource'' [''vm'', ''i1''] [Attribute ''name'' (StringVal ''i1'')]]
   \<and> Convert Inr [''project'', ''instance''] [instance1, project1] exampleNames
        [''instance'' \<mapsto> nameOnly ''vm'', ''project'' \<mapsto> nameOnly ''prj'']
       = Inr [Block ''resource'' [''prj'', ''p1''] [Attribute ''name'' (StringVal ''p1'')],
              Block ''resource'' [''vm'', ''i1''] [Attribute ''name'' (StringVal ''i1'')]]
   \<and> groupAssets [instance1, bucket1, project1] exampleNames Map.empty ''instance''
       = Some [instance1]"
  using Convert_drops_unresolved_assets
          [of Inr "[''project'', ''instance'']" "[instance1, bucket1, project1]" exampleNames
              "[''instance'' \<mapsto> nameOnly ''vm'', ''project'' \<mapsto> nameOnly ''prj'']"
              "''instance''"]
  by (auto simp: example_defs)

subsection \<open>Groups without a converter\<close>

lemma groupAssets_with_converter:
  assumes "converterMap name \<noteq> None"
  shows "groupAssets
           [a \<leftarrow> assets. case converterNames (Type a) of None \<Rightarrow> False
                          | Some n \<Rightarrow> converterMap n \<noteq> None]
           converterNames Map.empty name
         = groupAssets assets converterNames Map.empty name"
proof -
  have "[a \<leftarrow> [a \<leftarrow> assets. case converterNames (Type a) of None \<Rightarrow> False
                              | Some n \<Rightarrow> converterMap n \<noteq> None].
           converterNames (Type a) = Some name]
        = [a \<leftarrow> assets. converterNames (Type a) = Some name]"
    using assms by (auto intro: filter_cong)
  then show ?thesis by (simp only: groupAssets_empty_lookup)
qed

lemma groupAssets_without_converter:
  assumes "converterMap name = None"
  shows "groupAssets
           [a \<leftarrow> assets. case converterNames (Type a) of None \<Rightarrow> False
                          | Some n \<Rightarrow> converterMap n \<noteq> None]
           converterNames Map.empty name
         = None"
proof -
  have "[a \<leftarrow> [a \<leftarrow> assets. case converterNames (Type a) of None \<Rightarrow> False
                              | Some n \<Rightarrow> converterMap n \<noteq> None].
           converterNames (Type a) = Some name]
        = []"
    using assms by (auto simp: filter_empty_conv)
  then show ?thesis by (simp only: groupAssets_empty_lookup) simp
qed

text \<open>
  Claim C10: a group whose converter name has no entry in the converter map is skipped
  without any error. \<open>Convert\<close> returns on the batch exactly what it returns on the batch
  without the assets of such groups (and without the unresolved assets), traversed in
  the same order without the names of such groups; that is again a traversal of the
  groups map of the smaller batch; and such a group contributes no block and no error.
\<close>

theorem Convert_skips_groups_without_converter:
  "Convert Format order assets converterNames converterMap
     = Convert Format [n \<leftarrow> order. converterMap n \<noteq> None]
         [a \<leftarrow> assets. case converterNames (Type a) of None \<Rightarrow> False
                        | Some n \<Rightarrow> converterMap n \<noteq> None]
         converterNames converterMap
   \<and> (rangeOrder order (groupAssets assets converterNames Map.empty) \<longrightarrow>
        rangeOrder [n \<leftarrow> order. converterMap n \<noteq> None]
          (groupAssets
             [a \<leftarrow> assets. case converterNames (Type a) of None \<Rightarrow> False
                            | Some n \<Rightarrow> converterMap n \<noteq> None]
             converterNames Map.empty))
   \<and> (converterMap name = None \<longrightarrow>
        groupOutput (groupAssets assets converterNames Map.empty) converterMap name = Inr [])"
proof (intro conjI impI)
  let ?kept = "[a \<leftarrow> assets. case converterNames (Type a) of None \<Rightarrow> False
                              | Some n \<Rightarrow> converterMap n \<noteq> None]"
  let ?g = "groupAssets assets converterNames Map.empty"
  let ?g' = "groupAssets ?kept converterNames Map.empty"
  let ?order' = "[n \<leftarrow> order. converterMap n \<noteq> None]"
  have same: "\<forall>n \<in> set ?order'. ?g n = ?g' n"
    using groupAssets_with_converter [where converterMap = converterMap and assets = assets
            and converterNames = converterNames] by simp
  have "rangeGroups order ?g converterMap [] = rangeGroups ?order' ?g converterMap []"
    by (simp only: rangeGroups_without_converter)
  also have "\<dots> = rangeGroups ?order' ?g' converterMap []"
    by (rule rangeGroups_cong [OF same])
  finally show "Convert Format order assets converterNames converterMap
     = Convert Format ?order' ?kept converterNames converterMap"
    by (simp only: Convert_def convertFile_def)
  show "rangeOrder ?order' ?g'" if "rangeOrder order ?g"
  proof -
    from that have d: "distinct order" and s: "set order = dom ?g"
      by (simp_all add: rangeOrder_def)
    have "n \<in> set ?order' \<longleftrightarrow> n \<in> dom ?g'" for n
    proof (cases "converterMap n")
      case None
      then show ?thesis
        using groupAssets_without_converter [where converterMap = converterMap and name = n
            and assets = assets and converterNames = converterNames] by auto
    next
      case (Some c)
      then have "?g' n = ?g n"
        using groupAssets_with_converter [where converterMap = converterMap and assets = assets
            and converterNames = converterNames and name = n] by simp
      with Some s show ?thesis by (auto simp: dom_def)
    qed
    then have "set ?order' = dom ?g'" by blast
    with d show ?thesis by (simp add: rangeOrder_def)
  qed
  show "groupOutput ?g converterMap name = Inr []" if "converterMap name = None"
    using that by (rule groupOutput_without_converter)
qed

theorem Convert_skips_groups_without_converter_witness:
  "rangeOrder [''project'', ''instance'']
     (groupAssets [instance1, project1] exampleNames Map.empty)
   \<and> [''instance'' \<mapsto> nameOnly ''vm''] ''project'' = None
   \<and> Convert Inr [''project'', ''instance''] [instance1, project1] exampleNames
        [''instance'' \<mapsto> nameOnly ''vm'']
       = Inr [Block ''resource'' [''vm'', ''i1''] [Attribute ''name'' (StringVal ''i1'')]]
   \<and> Convert Inr [''instance''] [instance1] exampleNames [''instance'' \<mapsto> nameOnly ''vm'']
       = Inr [Block ''resource'' [''vm'', ''i1''] [Attribute ''name'' (StringVal ''i1'')]]
   \<and> rangeOrder [''instance''] (groupAssets [instance1] exampleNames Map.empty)
   \<and> groupOutput (groupAssets [instance1, project1] exampleNames Map.empty)
        [''instance'' \<mapsto> nameOnly ''vm''] ''project'' = Inr []"
  using Convert_skips_groups_without_converter
          [of Inr "[''project'', ''instance'']" "[instance1, project1]" exampleNames
              "[''instance'' \<mapsto> nameOnly ''vm'']" "''project''"]
  by (auto simp: example_defs)

subsection \<open>Failure of a group\<close>

text \<open>
  Claim C4: if the converter of any group returns an error, \<open>Convert\<close> returns that
  error and no document, and no block of the groups converted before the failure is
  returned. In a run the converter of a group is called when the traversal reaches
  the group, that is, when no group visited before it has failed in its converter or in
  the writer. The theorem has both parts: a group on which its converter fails makes
  \<open>Convert\<close> return an error and no document, in every traversal order and for every
  printer; and when the traversal reaches that group, the error returned is the
  converter's.
\<close>

theorem Convert_fails_when_a_group_fails:
  assumes order: "rangeOrder order (groupAssets assets converterNames Map.empty)"
    and v: "groupAssets assets converterNames Map.empty name = Some v"
    and converter: "converterMap name = Some converter"
    and err: "snd (converter v) = Some err"
  shows "(\<exists>e. Convert Format order assets converterNames converterMap = Inl e)
     \<and> ((\<forall>m \<in> set (takeWhile (\<lambda>m. m \<noteq> name) order).
            \<not> isl (groupOutput (groupAssets assets converterNames Map.empty) converterMap m))
         \<longrightarrow> Convert Format order assets converterNames converterMap = Inl err)"
proof -
  let ?g = "groupAssets assets converterNames Map.empty"
  from order v have mem: "name \<in> set order" by (auto simp: rangeOrder_def)
  from v converter err have out: "groupOutput ?g converterMap name = Inl err"
    by (cases "converter v") (simp add: groupOutput_def)
  then have "isl (rangeGroups order ?g converterMap [])"
    using rangeGroups_failure [OF mem, of ?g converterMap "[]"] by simp
  then obtain e where "rangeGroups order ?g converterMap [] = Inl e"
    by (cases "rangeGroups order ?g converterMap []") auto
  then have 1: "\<exists>e. Convert Format order assets converterNames converterMap = Inl e"
    by (simp add: Convert_def convertFile_def)
  have 2: "Convert Format order assets converterNames converterMap = Inl err"
    if "\<forall>m \<in> set (takeWhile (\<lambda>m. m \<noteq> name) order). \<not> isl (groupOutput ?g converterMap m)"
    using rangeGroups_first_failure [OF mem that out, of "[]"]
    by (simp add: Convert_def convertFile_def)
  from 1 2 show ?thesis by blast
qed

theorem Convert_fails_when_a_group_fails_witness:
  "rangeOrder [''instance'', ''project'']
     (groupAssets [instance1, project1] exampleNames Map.empty)
   \<and> groupAssets [instance1, project1] exampleNames Map.empty ''project'' = Some [project1]
   \<and> snd (failing ''project failed'' [project1]) = Some (ConverterFailure ''project failed'')
   \<and> \<not> isl (groupOutput (groupAssets [instance1, project1] exampleNames Map.empty)
              [''instance'' \<mapsto> nameOnly ''vm'', ''project'' \<mapsto> failing ''project failed'']
              ''instance'')
   \<and> Convert Inr [''instance'', ''project''] [instance1, project1] exampleNames
        [''instance'' \<mapsto> nameOnly ''vm'', ''project'' \<mapsto> failing ''project failed'']
       = Inl (ConverterFailure ''project failed'')"
  using Convert_fails_when_a_group_fails
          [of "[''instance'', ''project'']" "[instance1, project1]" exampleNames
              "''project''" "[project1]"
              "[''instance'' \<mapsto> nameOnly ''vm'', ''project'' \<mapsto> failing ''project failed'']"
              "failing ''project failed''" "ConverterFailure ''project failed''" Inr]
  by (auto simp: example_defs)

text \<open>
  When the converters of two groups fail, the loop ends at the first of them in traversal
  order and the converter of the other group is never called: traversed in the order
  instance, project, \<open>Convert\<close> returns the error of the instance group.
\<close>

lemma Convert_two_failing_groups:
  "rangeOrder [''instance'', ''project'']
     (groupAssets [instance1, project1] exampleNames Map.empty)
   \<and> groupAssets [instance1, project1] exampleNames Map.empty ''project'' = Some [project1]
   \<and> snd (failing ''project failed'' [project1]) = Some (ConverterFailure ''project failed'')
   \<and> Convert Inr [''instance'', ''project''] [instance1, project1] exampleNames
        [''instance'' \<mapsto> failing ''instance failed'', ''project'' \<mapsto> failing ''project failed'']
       = Inl (ConverterFailure ''instance failed'')
   \<and> Convert Inr [''instance'', ''project''] [instance1, project1] exampleNames
        [''instance'' \<mapsto> failing ''instance failed'', ''project'' \<mapsto> failing ''project failed'']
       \<noteq> Inl (ConverterFailure ''project failed'')"
  by (auto simp: example_defs)

subsection \<open>The order of the groups in the document\<close>

lemma mset_concat_map:
  "mset xs = mset ys \<Longrightarrow> mset (concat (map f xs)) = mset (concat (map f ys))"
proof -
  assume eq: "mset xs = mset ys"
  have "mset (concat (map f zs)) = (\<Sum>z \<in># mset zs. mset (f z))" for zs
    by (induction zs) simp_all
  with eq show ?thesis by simp
qed

text \<open>
  Claim C1, as amended: for a fixed batch, resolution table and converter map, whether
  \<open>Convert\<close> fails before printing does not depend on the order in which the groups are
  traversed; when it does not fail, the file handed to the printer is the concatenation,
  in traversal order, of the blocks of each group, which the input alone determines; so
  two runs produce files with the same blocks, each group's blocks together and in the
  converter's order, and two runs that traverse the groups in the same order produce
  the same document. The order of the blocks of different groups is the order of the
  traversal and is not fixed by the input.
\<close>

theorem Convert_order_of_groups:
  assumes o1: "rangeOrder order1 (groupAssets assets converterNames Map.empty)"
    and o2: "rangeOrder order2 (groupAssets assets converterNames Map.empty)"
  shows "(isl (convertFile order1 assets converterNames converterMap)
          \<longleftrightarrow> isl (convertFile order2 assets converterNames converterMap))
     \<and> (\<forall>f1 f2. convertFile order1 assets converterNames converterMap = Inr f1
              \<and> convertFile order2 assets converterNames converterMap = Inr f2 \<longrightarrow>
          f1 = concat (map (\<lambda>n. projr (groupOutput
                  (groupAssets assets converterNames Map.empty) converterMap n)) order1)
        \<and> f2 = concat (map (\<lambda>n. projr (groupOutput
                  (groupAssets assets converterNames Map.empty) converterMap n)) order2)
        \<and> mset f1 = mset f2)
     \<and> (order1 = order2 \<longrightarrow>
          Convert Format order1 assets converterNames converterMap
            = Convert Format order2 assets converterNames converterMap)"
proof (intro conjI allI impI)
  let ?g = "groupAssets assets converterNames Map.empty"
  let ?G = "\<lambda>n. projr (groupOutput ?g converterMap n)"
  from o1 o2 have sets: "set order1 = set order2" by (simp add: rangeOrder_def)
  from o1 o2 have "distinct order1" "distinct order2" by (simp_all add: rangeOrder_def)
  with sets have msets: "mset order1 = mset order2"
    by (simp add: set_eq_iff_mset_eq_distinct [symmetric])
  show "isl (convertFile order1 assets converterNames converterMap)
          \<longleftrightarrow> isl (convertFile order2 assets converterNames converterMap)"
    by (simp only: convertFile_def rangeGroups_isl sets)
  have whole: "f = concat (map ?G order)"
    if "convertFile order assets converterNames converterMap = Inr f" for order f
  proof -
    from that have "\<not> isl (rangeGroups order ?g converterMap [])"
      by (simp add: convertFile_def)
    then have "\<forall>n \<in> set order. \<not> isl (groupOutput ?g converterMap n)"
      by (simp only: rangeGroups_isl) blast
    from rangeGroups_success [OF this, of "[]"] that show ?thesis
      by (simp add: convertFile_def)
  qed
  fix f1 f2
  assume both: "convertFile order1 assets converterNames converterMap = Inr f1
              \<and> convertFile order2 assets converterNames converterMap = Inr f2"
  then show f1: "f1 = concat (map ?G order1)" and f2: "f2 = concat (map ?G order2)"
    using whole by blast+
  from msets show "mset f1 = mset f2" unfolding f1 f2 by (rule mset_concat_map)
next
  assume "order1 = order2"
  then show "Convert Format order1 assets converterNames converterMap
            = Convert Format order2 assets converterNames converterMap" by simp
qed

theorem Convert_order_of_groups_witness:
  "rangeOrder [''instance'', ''project'']
     (groupAssets [instance1, project1] exampleNames Map.empty)
   \<and> rangeOrder [''project'', ''instance'']
     (groupAssets [instance1, project1] exampleNames Map.empty)
   \<and> convertFile [''instance'', ''project''] [instance1, project1] exampleNames
        [''instance'' \<mapsto> nameOnly ''vm'', ''project'' \<mapsto> nameOnly ''prj'']
       = Inr [Block ''resource'' [''vm'', ''i1''] [Attribute ''name'' (StringVal ''i1'')],
              Block ''resource'' [''prj'', ''p1''] [Attribute ''name'' (StringVal ''p1'')]]
   \<and> convertFile [''project'', ''instance''] [instance1, project1] exampleNames
        [''instance'' \<mapsto> nameOnly ''vm'', ''project'' \<mapsto> nameOnly ''prj'']
       = Inr [Block ''resource'' [''prj'', ''p1''] [Attribute ''name'' (StringVal ''p1'')],
              Block ''resource'' [''vm'', ''i1''] [Attribute ''name'' (StringVal ''i1'')]]
   \<and> mset [Block ''resource'' [''vm'', ''i1''] [Attribute ''name'' (StringVal ''i1'')],
            Block ''resource'' [''prj'', ''p1''] [Attribute ''name'' (StringVal ''p1'')]]
       = mset [Block ''resource'' [''prj'', ''p1''] [Attribute ''name'' (StringVal ''p1'')],
               Block ''resource'' [''vm'', ''i1''] [Attribute ''name'' (StringVal ''i1'')]]"
  using Convert_order_of_groups
          [of "[''instance'', ''project'']" "[instance1, project1]" exampleNames
              "[''project'', ''instance'']"
              "[''instance'' \<mapsto> nameOnly ''vm'', ''project'' \<mapsto> nameOnly ''prj'']" Inr]
  by (auto simp: example_defs)

text \<open>
  Claim C1 as the spec states it (any two runs give the same document, the order of the
  groups' blocks does not vary) is refuted by two groups with one block each: the two
  orders in which \<open>range\<close> may visit the two keys give the two blocks in opposite orders,
  here with the printer taken as the identity on the file.
\<close>

theorem Convert_order_counterexample:
  "rangeOrder [''instance'', ''project'']
     (groupAssets [instance1, project1] exampleNames Map.empty)
   \<and> rangeOrder [''project'', ''instance'']
     (groupAssets [instance1, project1] exampleNames Map.empty)
   \<and> Convert Inr [''instance'', ''project''] [instance1, project1] exampleNames
        [''instance'' \<mapsto> nameOnly ''vm'', ''project'' \<mapsto> nameOnly ''prj'']
       = Inr [Block ''resource'' [''vm'', ''i1''] [Attribute ''name'' (StringVal ''i1'')],
              Block ''resource'' [''prj'', ''p1''] [Attribute ''name'' (StringVal ''p1'')]]
   \<and> Convert Inr [''project'', ''instance''] [instance1, project1] exampleNames
        [''instance'' \<mapsto> nameOnly ''vm'', ''project'' \<mapsto> nameOnly ''prj'']
       = Inr [Block ''resource'' [''prj'', ''p1''] [Attribute ''name'' (StringVal ''p1'')],
              Block ''resource'' [''vm'', ''i1''] [Attribute ''name'' (StringVal ''i1'')]]
   \<and> Convert Inr [''instance'', ''project''] [instance1, project1] exampleNames
        [''instance'' \<mapsto> nameOnly ''vm'', ''project'' \<mapsto> nameOnly ''prj'']
       \<noteq> Convert Inr [''project'', ''instance''] [instance1, project1] exampleNames
        [''instance'' \<mapsto> nameOnly ''vm'', ''project'' \<mapsto> nameOnly ''prj'']"
  by (auto simp: example_defs)

section \<open>The pattern-based resolver (\<open>tryGetConverterNameByAssetNameRegex\<close>)\<close>

text \<open>
  Modelled from the spec: the function \<open>tryGetConverterNameByAssetNameRegex\<close>, which is
  not among the sources (only its test \<open>TestTryGetConverterNameByAssetNameRegex\<close> is).
  The spec (Asset Type Resolver, step 2) says: iterate the pattern table's entries and
  test the resource name against each regular expression, accepting a match whether or
  not the name is prefixed with a source-service URL segment; the first match wins; no
  match is reported as not found, without an error.

  The regular-expression engine is a parameter: \<open>matches pattern path\<close> says whether the
  pattern matches a resource path in bare form. The pattern table is a Go map; it is
  given as the list of its entries in the order in which they are iterated. A name is
  prefixed with a source-service URL segment when it starts with two slashes, a service
  host and a slash, as in \<open>//service.example.com/projects/p\<close>; \<open>bareName\<close> removes such a
  prefix, and the resolver tests the patterns against the bare name.
\<close>

definition bareName :: "string \<Rightarrow> string" where
  "bareName name =
     (if take 2 name = ''//'' then
        (case dropWhile (\<lambda>c. c \<noteq> CHR ''/'') (drop 2 name) of
           [] \<Rightarrow> name
         | slash # path \<Rightarrow> path)
      else name)"

text \<open>
  Modelled from the spec: the resolver proper, absent from the sources like \<open>bareName\<close>.
  It returns the converter name of the first entry, in iteration order, whose pattern
  matches the bare name, with \<open>True\<close>; and the empty name with \<open>False\<close> when no entry
  matches.
\<close>

fun tryGetConverterNameByAssetNameRegex ::
  "(string \<Rightarrow> string \<Rightarrow> bool) \<Rightarrow> string \<Rightarrow> (string \<times> string) list \<Rightarrow> string \<times> bool"
where
  "tryGetConverterNameByAssetNameRegex matches name [] = ('''', False)"
| "tryGetConverterNameByAssetNameRegex matches name ((pattern, converterName) # rest) =
     (if matches pattern (bareName name) then (converterName, True)
      else tryGetConverterNameByAssetNameRegex matches name rest)"

lemma bareName_prefixed:
  "CHR ''/'' \<notin> set service \<Longrightarrow> bareName (''//'' @ service @ ''/'' @ bare) = bare"
proof -
  assume s: "CHR ''/'' \<notin> set service"
  then have "dropWhile (\<lambda>c. c \<noteq> CHR ''/'') service = []" by (auto simp: dropWhile_eq_Nil_conv)
  then have "dropWhile (\<lambda>c. c \<noteq> CHR ''/'') (service @ CHR ''/'' # bare) = CHR ''/'' # bare"
    by (simp add: dropWhile_append3)
  then show ?thesis by (simp add: bareName_def)
qed

lemma bareName_bare: "take 2 name \<noteq> ''//'' \<Longrightarrow> bareName name = name"
  by (simp add: bareName_def)

lemma tryGetConverterNameByAssetNameRegex_bareName:
  "bareName name = bareName name' \<Longrightarrow>
   tryGetConverterNameByAssetNameRegex matches name table
     = tryGetConverterNameByAssetNameRegex matches name' table"
  by (induction table) auto

lemma tryGetConverterNameByAssetNameRegex_found:
  "(pattern, converterName) \<in> set table \<Longrightarrow> matches pattern (bareName name) \<Longrightarrow>
   snd (tryGetConverterNameByAssetNameRegex matches name table)"
  by (induction table) auto

text \<open>
  When the patterns that match a name all lead to one converter name, the result does
  not depend on the order in which the entries of the table are iterated.
\<close>

lemma tryGetConverterNameByAssetNameRegex_exclusive:
  "(pattern, converterName) \<in> set table \<Longrightarrow> matches pattern (bareName name) \<Longrightarrow>
   \<forall>(p, c) \<in> set table. matches p (bareName name) \<longrightarrow> c = converterName \<Longrightarrow>
   tryGetConverterNameByAssetNameRegex matches name table = (converterName, True)"
  by (induction table) auto

text \<open>
  Claim C7: for every entry of the pattern table and every resource name that matches it
  in bare form, the resolver finds a converter name, and it returns the same result
  whether the name is given bare or prefixed with a source-service URL segment
  \<open>//service/\<close>.
\<close>

theorem tryGetConverterNameByAssetNameRegex_prefix_tolerant:
  assumes "(pattern, converterName) \<in> set table"
    and "matches pattern bare"
    and "take 2 bare \<noteq> ''//''"
    and "CHR ''/'' \<notin> set service"
  shows "tryGetConverterNameByAssetNameRegex matches (''//'' @ service @ ''/'' @ bare) table
           = tryGetConverterNameByAssetNameRegex matches bare table
       \<and> snd (tryGetConverterNameByAssetNameRegex matches bare table)"
proof
  from assms(4) have prefixed: "bareName (''//'' @ service @ ''/'' @ bare) = bare"
    by (rule bareName_prefixed)
  from assms(3) have bare: "bareName bare = bare"
    by (rule bareName_bare)
  from prefixed bare have "bareName (''//'' @ service @ ''/'' @ bare) = bareName bare"
    by (simp only:)
  then show "tryGetConverterNameByAssetNameRegex matches (''//'' @ service @ ''/'' @ bare) table
           = tryGetConverterNameByAssetNameRegex matches bare table"
    by (rule tryGetConverterNameByAssetNameRegex_bareName)
  from assms(2) bare have "matches pattern (bareName bare)" by (simp only:)
  with assms(1) show "snd (tryGetConverterNameByAssetNameRegex matches bare table)"
    by (rule tryGetConverterNameByAssetNameRegex_found)
qed

theorem tryGetConverterNameByAssetNameRegex_prefix_tolerant_witness:
  "(''projects/'', ''rule'') \<in> set [(''global/'', ''global_rule''), (''projects/'', ''rule'')]
   \<and> ''projects/'' = take (length ''projects/'') ''projects/p/x''
   \<and> take 2 ''projects/p/x'' \<noteq> ''//''
   \<and> CHR ''/'' \<notin> set ''svc.example.com''
   \<and> tryGetConverterNameByAssetNameRegex (\<lambda>pattern path. pattern = take (length pattern) path)
        ''//svc.example.com/projects/p/x''
        [(''global/'', ''global_rule''), (''projects/'', ''rule'')] = (''rule'', True)
   \<and> tryGetConverterNameByAssetNameRegex (\<lambda>pattern path. pattern = take (length pattern) path)
        ''projects/p/x''
        [(''global/'', ''global_rule''), (''projects/'', ''rule'')] = (''rule'', True)"
  using tryGetConverterNameByAssetNameRegex_prefix_tolerant
          [of "''projects/''" "''rule''" "[(''global/'', ''global_rule''), (''projects/'', ''rule'')]"
              "\<lambda>pattern path. pattern = take (length pattern) path" "''projects/p/x''"
              "''svc.example.com''"]
  by (simp add: bareName_def)

end
